theory Spec2Isabelle
  imports Main
begin

section \<open>Python values\<close>

text \<open>
  The script \<^verbatim>\<open>search_web_py.py\<close> reads \<^verbatim>\<open>sys.argv\<close>, decodes its second entry with
  \<^verbatim>\<open>json.loads\<close>, looks the key \<^verbatim>\<open>query\<close> up and prints one JSON document, either to
  standard output or to standard error.

  A Python \<^verbatim>\<open>str\<close> is a sequence of Unicode code points, so a string is a list of
  code points here; \<open>lit\<close> embeds an ASCII literal of the source.
\<close>

type_synonym pystr = "nat list"

definition lit :: "string \<Rightarrow> pystr" where
  "lit s = map of_char s"

text \<open>
  The values \<^verbatim>\<open>json.loads\<close> can return. A float is named by a decimal numeral:
  \<open>Dec neg m e\<close> is the binary64 that \<^verbatim>\<open>float()\<close> returns for the numeral
  \<^verbatim>\<open>m * 10^e\<close> (negated when \<open>neg\<close>), that is the binary64 nearest to it, ties to even.
  A dict is an association list in insertion order with distinct keys.
\<close>

datatype pyfloat = NaN | PosInf | NegInf | Dec bool nat int

datatype pyval =
    PyNone
  | PyBool bool
  | PyInt int
  | PyFloat pyfloat
  | PyStr pystr
  | PyList "pyval list"
  | PyDict "(pystr \<times> pyval) list"

text \<open>
  \<^verbatim>\<open>d[k] = v\<close> on a dict: an existing key keeps its place and takes the new value, a new
  key goes to the end.
\<close>

fun dict_set :: "(pystr \<times> pyval) list \<Rightarrow> pystr \<Rightarrow> pyval \<Rightarrow> (pystr \<times> pyval) list" where
  "dict_set [] k v = [(k, v)]"
| "dict_set ((k', v') # d) k v = (if k' = k then (k, v) # d else (k', v') # dict_set d k v)"

text \<open>
  A decimal numeral rounds to a zero of binary64 exactly when its magnitude is at most
  \<^verbatim>\<open>2^-1075\<close>, half of the least positive binary64 \<^verbatim>\<open>2^-1074\<close> (the tie goes to the even
  neighbour, which is zero).
\<close>

fun float_nonzero :: "pyfloat \<Rightarrow> bool" where
  "float_nonzero (Dec neg m e) =
     (if 0 \<le> e then m \<noteq> 0 else 10 ^ nat (- e) < m * 2 ^ 1075)"
| "float_nonzero _ = True"

text \<open>Python's truth value of an object, which \<^verbatim>\<open>not query\<close> tests.\<close>

fun truthy :: "pyval \<Rightarrow> bool" where
  "truthy PyNone = False"
| "truthy (PyBool b) = b"
| "truthy (PyInt n) = (n \<noteq> 0)"
| "truthy (PyFloat f) = float_nonzero f"
| "truthy (PyStr s) = (s \<noteq> [])"
| "truthy (PyList xs) = (xs \<noteq> [])"
| "truthy (PyDict d) = (d \<noteq> [])"

fun type_name :: "pyval \<Rightarrow> string" where
  "type_name PyNone = ''NoneType''"
| "type_name (PyBool b) = ''bool''"
| "type_name (PyInt n) = ''int''"
| "type_name (PyFloat f) = ''float''"
| "type_name (PyStr s) = ''str''"
| "type_name (PyList xs) = ''list''"
| "type_name (PyDict d) = ''dict''"

section \<open>Exceptions and streams\<close>

text \<open>
  The exceptions below are subclasses of \<^verbatim>\<open>Exception\<close>; \<open>AttributeError\<close> and
  \<open>OtherException\<close> carry \<^verbatim>\<open>str(e)\<close>. \<^verbatim>\<open>SystemExit\<close>, which \<^verbatim>\<open>sys.exit\<close> raises, is not
  a subclass of \<^verbatim>\<open>Exception\<close>, so it is a signal of its own.
\<close>

datatype exn = JSONDecodeError | AttributeError pystr | OtherException pystr

datatype signal = Raise exn | SystemExit int

text \<open>
  A stream holds the documents printed to it, oldest first: the entry \<open>v\<close> stands for
  the line \<^verbatim>\<open>json.dumps(v)\<close> that \<^verbatim>\<open>print\<close> wrote.

  The state of a process is the two streams and, in the extension of the record, whatever
  else the process holds or can reach: environment variables, files, the clock, the
  globals of its modules. \<^verbatim>\<open>print\<close> changes one stream and nothing else.
\<close>

record io =
  stdout :: "pyval list"
  stderr :: "pyval list"

definition print_stdout :: "pyval \<Rightarrow> 'z io_scheme \<Rightarrow> 'z io_scheme" where
  "print_stdout v s = s\<lparr>stdout := stdout s @ [v]\<rparr>"

definition print_stderr :: "pyval \<Rightarrow> 'z io_scheme \<Rightarrow> 'z io_scheme" where
  "print_stderr v s = s\<lparr>stderr := stderr s @ [v]\<rparr>"

text \<open>
  \<^verbatim>\<open>args.get(key, default)\<close>: defined on a dict only; every other value has no
  attribute \<^verbatim>\<open>get\<close>.
\<close>

definition apostrophe :: nat where
  "apostrophe = 39"

definition no_attribute :: "pyval \<Rightarrow> string \<Rightarrow> pystr" where
  "no_attribute v a =
     apostrophe # lit (type_name v) @ apostrophe # lit '' object has no attribute ''
       @ apostrophe # lit a @ [apostrophe]"

fun py_get :: "pyval \<Rightarrow> string \<Rightarrow> pyval \<Rightarrow> exn + pyval" where
  "py_get (PyDict d) key dflt =
     Inr (case map_of d (lit key) of Some v \<Rightarrow> v | None \<Rightarrow> dflt)"
| "py_get v key dflt = Inl (AttributeError (no_attribute v ''get''))"

section \<open>The JSON decoder\<close>

text \<open>
  \<^verbatim>\<open>json.loads\<close> of Python's standard library, with its default settings, on a \<^verbatim>\<open>str\<close>.
  It either returns a value or raises \<^verbatim>\<open>JSONDecodeError\<close>; the limits of the interpreter
  (recursion depth, the digits of an integer) are not part of the decoder here.
  Beyond JSON it accepts the constants \<^verbatim>\<open>NaN\<close>, \<^verbatim>\<open>Infinity\<close> and \<^verbatim>\<open>-Infinity\<close>; the flag \<open>ext\<close>
  switches them on, and without them the grammar is that of JSON (RFC 8259).
\<close>

definition ch :: "char \<Rightarrow> nat" where
  "ch c = of_char c"

definition is_ws :: "nat \<Rightarrow> bool" where
  "is_ws c = (c = 32 \<or> c = 9 \<or> c = 10 \<or> c = 13)"

definition is_digit :: "nat \<Rightarrow> bool" where
  "is_digit c = (48 \<le> c \<and> c \<le> 57)"

definition skip_ws :: "pystr \<Rightarrow> pystr" where
  "skip_ws s = dropWhile is_ws s"

definition hex_digit :: "nat \<Rightarrow> nat option" where
  "hex_digit c =
     (if 48 \<le> c \<and> c \<le> 57 then Some (c - 48)
      else if 97 \<le> c \<and> c \<le> 102 then Some (c - 87)
      else if 65 \<le> c \<and> c \<le> 70 then Some (c - 55)
      else None)"

definition hex4 :: "nat \<Rightarrow> nat \<Rightarrow> nat \<Rightarrow> nat \<Rightarrow> nat option" where
  "hex4 a b c d =
     (case (hex_digit a, hex_digit b, hex_digit c, hex_digit d) of
        (Some w, Some x, Some y, Some z) \<Rightarrow> Some (((w * 16 + x) * 16 + y) * 16 + z)
      | _ \<Rightarrow> None)"

definition unescape :: "nat \<Rightarrow> nat option" where
  "unescape c =
     (if c = ch CHR ''\"'' then Some c
      else if c = ch CHR 0x5C then Some c
      else if c = ch CHR ''/'' then Some c
      else if c = ch CHR ''b'' then Some 8
      else if c = ch CHR ''f'' then Some 12
      else if c = ch CHR ''n'' then Some 10
      else if c = ch CHR ''r'' then Some 13
      else if c = ch CHR ''t'' then Some 9
      else None)"

definition is_high_surrogate :: "nat \<Rightarrow> bool" where
  "is_high_surrogate c = (0xD800 \<le> c \<and> c \<le> 0xDBFF)"

definition is_low_surrogate :: "nat \<Rightarrow> bool" where
  "is_low_surrogate c = (0xDC00 \<le> c \<and> c \<le> 0xDFFF)"

definition join_surrogates :: "nat \<Rightarrow> nat \<Rightarrow> nat" where
  "join_surrogates hi lo = 0x10000 + (hi - 0xD800) * 0x400 + (lo - 0xDC00)"

text \<open>
  A backslash escape inside a string, read after the backslash. \<^verbatim>\<open>\uXXXX\<close> with a high
  surrogate joins a following \<^verbatim>\<open>\uXXXX\<close> with a low surrogate into one code point.
\<close>

definition scan_u4 :: "pystr \<Rightarrow> (nat \<times> pystr) option" where
  "scan_u4 s =
     (case s of
        h1 # h2 # h3 # h4 # r \<Rightarrow>
          (case hex4 h1 h2 h3 h4 of
             None \<Rightarrow> None
           | Some x \<Rightarrow> Some (x, r))
      | _ \<Rightarrow> None)"

definition scan_unicode :: "pystr \<Rightarrow> (nat \<times> pystr) option" where
  "scan_unicode s =
     (case scan_u4 s of
        None \<Rightarrow> None
      | Some (hi, r1) \<Rightarrow>
          if is_high_surrogate hi \<and> take 2 r1 = [ch CHR 0x5C, ch CHR ''u'']
          then (case scan_u4 (drop 2 r1) of
                  None \<Rightarrow> None
                | Some (lo, r2) \<Rightarrow>
                    if is_low_surrogate lo then Some (join_surrogates hi lo, r2)
                    else Some (hi, r1))
          else Some (hi, r1))"

definition scan_escape :: "pystr \<Rightarrow> (nat \<times> pystr) option" where
  "scan_escape s =
     (case s of
        [] \<Rightarrow> None
      | e # r \<Rightarrow>
          if e = ch CHR ''u'' then scan_unicode r
          else (case unescape e of
                  None \<Rightarrow> None
                | Some x \<Rightarrow> Some (x, r)))"

lemma scan_u4_length: "scan_u4 s = Some (x, r) \<Longrightarrow> length s = length r + 4"
  unfolding scan_u4_def by (simp split: list.splits option.splits)

lemma scan_unicode_length:
  assumes "scan_unicode s = Some (x, r)"
  shows "length r < length s"
proof -
  from assms obtain hi r1 where a: "scan_u4 s = Some (hi, r1)"
    unfolding scan_unicode_def by (simp split: option.splits prod.splits)
  have b: "length s = length r1 + 4" by (rule scan_u4_length [OF a])
  show ?thesis
  proof (cases "r = r1")
    case True
    with b show ?thesis by simp
  next
    case False
    with assms a obtain lo where c: "scan_u4 (drop 2 r1) = Some (lo, r)"
      unfolding scan_unicode_def by (simp split: option.splits prod.splits if_splits)
    from scan_u4_length [OF c] have "length r \<le> length r1" by simp
    with b show ?thesis by simp
  qed
qed

lemma scan_escape_length:
  assumes "scan_escape s = Some (x, r)"
  shows "length r < length s"
proof (cases s)
  case Nil
  with assms show ?thesis by (simp add: scan_escape_def)
next
  case (Cons e t)
  show ?thesis
  proof (cases "e = ch CHR ''u''")
    case True
    with assms Cons have "scan_unicode t = Some (x, r)" by (simp add: scan_escape_def)
    from scan_unicode_length [OF this] Cons show ?thesis by simp
  next
    case False
    with assms Cons have "r = t" by (simp add: scan_escape_def split: option.splits)
    with Cons show ?thesis by simp
  qed
qed

text \<open>
  The characters of a string after its opening quote, up to the closing quote; control
  characters are refused.
\<close>

function scanstring :: "pystr \<Rightarrow> pystr \<Rightarrow> (pystr \<times> pystr) option" where
  "scanstring acc [] = None"
| "scanstring acc (c # cs) =
     (if c = ch CHR ''\"'' then Some (acc, cs)
      else if c = ch CHR 0x5C then
        (case scan_escape cs of
           None \<Rightarrow> None
         | Some (x, r) \<Rightarrow> scanstring (acc @ [x]) r)
      else if c < 32 then None
      else scanstring (acc @ [c]) cs)"
  by pat_completeness auto

termination
proof (relation "measure (\<lambda>(acc, s). length s)", goal_cases)
  case 1
  show ?case by simp
next
  case (2 acc c cs p x r)
  then have "scan_escape cs = Some (x, r)" by simp
  from scan_escape_length [OF this] show ?case by simp
next
  case (3 acc c cs)
  show ?case by simp
qed

lemma scanstring_shorter:
  "scanstring acc s = Some (t, r) \<Longrightarrow> length r < length s"
proof (induction acc s rule: scanstring.induct)
  case (1 acc)
  then show ?case by simp
next
  case (2 acc c cs)
  show ?case
  proof (cases "c = ch CHR ''\"''")
    case True
    with 2 show ?thesis by simp
  next
    case nq: False
    show ?thesis
    proof (cases "c = ch CHR 0x5C")
      case True
      with nq 2(3) obtain x r' where e: "scan_escape cs = Some (x, r')"
        and s: "scanstring (acc @ [x]) r' = Some (t, r)"
        by (simp split: option.splits prod.splits)
      from 2(1) [OF nq True e refl s] scan_escape_length [OF e]
      show ?thesis by simp
    next
      case False
      with nq 2(3) have c: "\<not> c < 32" and s: "scanstring (acc @ [c]) cs = Some (t, r)"
        by (simp_all split: if_splits)
      from 2(2) [OF nq False c s] show ?thesis by simp
    qed
  qed
qed

text \<open>
  Numbers: \<^verbatim>\<open>-?(0|[1-9][0-9]*)(\.[0-9]+)?([eE][-+]?[0-9]+)?\<close>, the longest match; a
  fraction or an exponent makes the number a float.
\<close>

definition digits_val :: "pystr \<Rightarrow> nat" where
  "digits_val ds = foldl (\<lambda>n d. 10 * n + (d - 48)) 0 ds"

definition match_sign :: "pystr \<Rightarrow> bool \<times> pystr" where
  "match_sign s =
     (case s of
        [] \<Rightarrow> (False, s)
      | c # r \<Rightarrow> if c = ch CHR ''-'' then (True, r) else (False, s))"

definition match_integer :: "pystr \<Rightarrow> (pystr \<times> pystr) option" where
  "match_integer s =
     (case s of
        [] \<Rightarrow> None
      | c # r \<Rightarrow>
          if c = ch CHR ''0'' then Some ([c], r)
          else if is_digit c then Some (c # takeWhile is_digit r, dropWhile is_digit r)
          else None)"

definition match_frac :: "pystr \<Rightarrow> pystr \<times> pystr" where
  "match_frac s =
     (case s of
        d # x # r \<Rightarrow>
          if d = ch CHR ''.'' \<and> is_digit x
          then (x # takeWhile is_digit r, dropWhile is_digit r)
          else ([], s)
      | _ \<Rightarrow> ([], s))"

definition match_exp_sign :: "pystr \<Rightarrow> bool \<times> pystr" where
  "match_exp_sign s =
     (case s of
        [] \<Rightarrow> (False, s)
      | g # r \<Rightarrow>
          if g = ch CHR ''-'' then (True, r)
          else if g = ch CHR ''+'' then (False, r)
          else (False, s))"

definition match_exp :: "pystr \<Rightarrow> int option \<times> pystr" where
  "match_exp s =
     (case s of
        [] \<Rightarrow> (None, s)
      | e # r \<Rightarrow>
          if e = ch CHR ''e'' \<or> e = ch CHR ''E'' then
            (let (neg, r1) = match_exp_sign r;
                 ds = takeWhile is_digit r1
             in if ds = [] then (None, s)
                else (Some (if neg then - int (digits_val ds) else int (digits_val ds)),
                      dropWhile is_digit r1))
          else (None, s))"

definition match_number :: "pystr \<Rightarrow> (pyval \<times> pystr) option" where
  "match_number s =
     (let (neg, s1) = match_sign s in
      case match_integer s1 of
        None \<Rightarrow> None
      | Some (ip, s2) \<Rightarrow>
          (let (fp, s3) = match_frac s2;
               (ex, s4) = match_exp s3
           in if fp = [] \<and> ex = None
              then Some (PyInt (if neg then - int (digits_val ip) else int (digits_val ip)), s4)
              else Some (PyFloat (Dec neg (digits_val (ip @ fp))
                                   ((case ex of None \<Rightarrow> 0 | Some x \<Rightarrow> x) - int (length fp))),
                         s4)))"

lemma match_sign_length: "match_sign s = (neg, r) \<Longrightarrow> length r \<le> length s"
  unfolding match_sign_def by (cases s) (auto split: if_splits)

lemma match_integer_shorter: "match_integer s = Some (ip, r) \<Longrightarrow> length r < length s"
  unfolding match_integer_def
  by (cases s) (auto simp: less_Suc_eq_le length_dropWhile_le split: if_splits)


lemma match_frac_length: "match_frac s = (fp, r) \<Longrightarrow> length r \<le> length s"
proof (cases s)
  case Nil
  then show "match_frac s = (fp, r) \<Longrightarrow> length r \<le> length s"
    by (simp add: match_frac_def)
next
  case a: (Cons d t)
  show "match_frac s = (fp, r) \<Longrightarrow> length r \<le> length s"
  proof (cases t)
    case Nil
    with a show "match_frac s = (fp, r) \<Longrightarrow> length r \<le> length s"
      by (simp add: match_frac_def)
  next
    case (Cons x u)
    have "length (dropWhile is_digit u) \<le> length u" by (rule length_dropWhile_le)
    with a Cons show "match_frac s = (fp, r) \<Longrightarrow> length r \<le> length s"
      by (auto simp: match_frac_def split: if_splits)
  qed
qed


lemma match_exp_sign_length: "match_exp_sign s = (neg, r) \<Longrightarrow> length r \<le> length s"
  unfolding match_exp_sign_def by (cases s) (auto split: if_splits)

lemma match_exp_length:
  assumes "match_exp s = (ex, r)"
  shows "length r \<le> length s"
proof (cases "r = s")
  case True
  then show ?thesis by simp
next
  case False
  with assms obtain e t where s: "s = e # t"
    by (cases s) (auto simp: match_exp_def)
  obtain neg r1 where a: "match_exp_sign t = (neg, r1)" by (cases "match_exp_sign t")
  from assms False s a have "r = dropWhile is_digit r1"
    by (auto simp: match_exp_def Let_def split: if_splits)
  then have "length r \<le> length r1" by (simp add: length_dropWhile_le)
  with match_exp_sign_length [OF a] s show ?thesis by simp
qed


lemma match_number_shorter:
  assumes "match_number s = Some (v, r)"
  shows "length r < length s"
proof -
  obtain neg s1 where a: "match_sign s = (neg, s1)" by (cases "match_sign s")
  from assms a obtain ip s2 where b: "match_integer s1 = Some (ip, s2)"
    by (cases "match_integer s1") (auto simp: match_number_def)
  obtain fp s3 where c: "match_frac s2 = (fp, s3)" by (cases "match_frac s2")
  obtain ex s4 where d: "match_exp s3 = (ex, s4)" by (cases "match_exp s3")
  from assms have "r = s4"
    by (simp add: match_number_def a b c d split: if_splits)
  with match_sign_length [OF a] match_integer_shorter [OF b]
       match_frac_length [OF c] match_exp_length [OF d]
  show ?thesis by simp
qed

text \<open>The named constants; \<open>ext\<close> admits the three that are not JSON.\<close>

definition match_constant :: "bool \<Rightarrow> pystr \<Rightarrow> (pyval \<times> pystr) option" where
  "match_constant ext s =
     (if take 4 s = lit ''null'' then Some (PyNone, drop 4 s)
      else if take 4 s = lit ''true'' then Some (PyBool True, drop 4 s)
      else if take 5 s = lit ''false'' then Some (PyBool False, drop 5 s)
      else if ext \<and> take 3 s = lit ''NaN'' then Some (PyFloat NaN, drop 3 s)
      else if ext \<and> take 8 s = lit ''Infinity'' then Some (PyFloat PosInf, drop 8 s)
      else if ext \<and> take 9 s = lit ''-Infinity'' then Some (PyFloat NegInf, drop 9 s)
      else None)"




text \<open>
  What a value starts with: a string, a constant, a number or an empty container is
  complete at once; a container with contents is entered at its first item.
\<close>

datatype start = Atom "(pyval \<times> pystr) option" | ArrayItems pystr | ObjectItems pystr

definition value_start :: "bool \<Rightarrow> pystr \<Rightarrow> start" where
  "value_start ext s =
     (case s of
        [] \<Rightarrow> Atom None
      | c # cs \<Rightarrow>
          if c = ch CHR ''\"'' then
            Atom (case scanstring [] cs of
                    None \<Rightarrow> None
                  | Some (t, r) \<Rightarrow> Some (PyStr t, r))
          else if c = ch CHR ''{'' then
            (case skip_ws cs of
               [] \<Rightarrow> Atom None
             | x # r \<Rightarrow>
                 if x = ch CHR ''}'' then Atom (Some (PyDict [], r))
                 else ObjectItems (x # r))
          else if c = ch CHR ''['' then
            (case skip_ws cs of
               [] \<Rightarrow> Atom None
             | x # r \<Rightarrow>
                 if x = ch CHR '']'' then Atom (Some (PyList [], r))
                 else ArrayItems (x # r))
          else
            Atom (case match_constant ext s of
                    Some y \<Rightarrow> Some y
                  | None \<Rightarrow> match_number s))"

text \<open>
  After an item of a container that closes with \<open>close\<close>: the closing bracket ends it,
  a comma leads to the next item, anything else is an error.
\<close>

datatype continue = Closed pystr | Next pystr | Bad

definition after_item :: "char \<Rightarrow> pystr \<Rightarrow> continue" where
  "after_item close s =
     (case skip_ws s of
        [] \<Rightarrow> Bad
      | x # r \<Rightarrow>
          if x = ch close then Closed r
          else if x = ch CHR '','' then Next (skip_ws r)
          else Bad)"

text \<open>The key of an object member and the colon after it.\<close>

definition member_key :: "pystr \<Rightarrow> (pystr \<times> pystr) option" where
  "member_key s =
     (case s of
        [] \<Rightarrow> None
      | q # s1 \<Rightarrow>
          if q = ch CHR ''\"'' then
            (case scanstring [] s1 of
               None \<Rightarrow> None
             | Some (key, s2) \<Rightarrow>
                 (case skip_ws s2 of
                    [] \<Rightarrow> None
                  | colon # s3 \<Rightarrow>
                      if colon = ch CHR '':'' then Some (key, skip_ws s3) else None))
          else None)"


lemma length_skip_ws: "length (skip_ws s) \<le> length s"
  by (simp add: skip_ws_def length_dropWhile_le)

lemma skip_ws_less_Suc: "length (skip_ws s) < Suc (length s)"
  using length_skip_ws [of s] by simp

lemma value_start_ArrayItems:
  assumes "value_start ext s = ArrayItems r"
  shows "length r < length s"
proof (cases s)
  case Nil
  with assms show ?thesis by (simp add: value_start_def)
next
  case (Cons c cs)
  with assms have "r = skip_ws cs"
    by (auto simp: value_start_def split: if_splits list.splits)
  with Cons skip_ws_less_Suc [of cs] show ?thesis by simp
qed

lemma value_start_ObjectItems:
  assumes "value_start ext s = ObjectItems r"
  shows "length r < length s"
proof (cases s)
  case Nil
  with assms show ?thesis by (simp add: value_start_def)
next
  case (Cons c cs)
  with assms have "r = skip_ws cs"
    by (auto simp: value_start_def split: if_splits list.splits)
  with Cons skip_ws_less_Suc [of cs] show ?thesis by simp
qed

lemma after_item_Next:
  assumes "after_item close s = Next r"
  shows "length r < length s"
proof -
  from assms obtain x r' where b: "skip_ws s = x # r'" and c: "r = skip_ws r'"
    by (auto simp: after_item_def split: list.splits if_splits)
  from b length_skip_ws [of s] have "length r' < length s" by simp
  with c length_skip_ws [of r'] show ?thesis by simp
qed

lemma member_key_shorter:
  assumes "member_key s = Some (key, r)"
  shows "length r < length s"
proof -
  from assms obtain q s1 s2 colon s3 where s: "s = q # s1"
      and b: "scanstring [] s1 = Some (key, s2)"
      and c: "skip_ws s2 = colon # s3" and d: "r = skip_ws s3"
    by (auto simp: member_key_def split: list.splits if_splits option.splits)
  from c length_skip_ws [of s2] have e: "length s3 < length s2" by simp
  have f: "length s2 < length s1" by (rule scanstring_shorter [OF b])
  have g: "length r \<le> length s3" unfolding d by (rule length_skip_ws)
  have h: "length s = Suc (length s1)" unfolding s by simp
  from e f g h show ?thesis by arith
qed

function scan_once :: "bool \<Rightarrow> pystr \<Rightarrow> (pyval \<times> pystr) option"
  and parse_array :: "bool \<Rightarrow> pyval list \<Rightarrow> pystr \<Rightarrow> (pyval \<times> pystr) option"
  and parse_object :: "bool \<Rightarrow> (pystr \<times> pyval) list \<Rightarrow> pystr \<Rightarrow> (pyval \<times> pystr) option"
where
  "scan_once ext s =
     (case value_start ext s of
        Atom a \<Rightarrow> a
      | ArrayItems r \<Rightarrow> parse_array ext [] r
      | ObjectItems r \<Rightarrow> parse_object ext [] r)"
| "parse_array ext acc s =
     (case scan_once ext s of
        None \<Rightarrow> None
      | Some (v, r) \<Rightarrow>
          if length r < length s then
            (case after_item CHR '']'' r of
               Bad \<Rightarrow> None
             | Closed r' \<Rightarrow> Some (PyList (acc @ [v]), r')
             | Next r' \<Rightarrow> parse_array ext (acc @ [v]) r')
          else None)"
| "parse_object ext acc s =
     (case member_key s of
        None \<Rightarrow> None
      | Some (key, s') \<Rightarrow>
          (case scan_once ext s' of
             None \<Rightarrow> None
           | Some (v, r) \<Rightarrow>
               if length r < length s' then
                 (case after_item CHR ''}'' r of
                    Bad \<Rightarrow> None
                  | Closed r' \<Rightarrow> Some (PyDict (dict_set acc key v), r')
                  | Next r' \<Rightarrow> parse_object ext (dict_set acc key v) r')
               else None))"
  by pat_completeness auto

termination
proof (relation "measure (\<lambda>x. case x of
            Inl (ext, s) \<Rightarrow> 2 * length s
          | Inr (Inl (ext, acc, s)) \<Rightarrow> 2 * length s + 1
          | Inr (Inr (ext, acc, s)) \<Rightarrow> 2 * length s + 1)", goal_cases)
  case 1
  show ?case by simp
next
  case (2 ext s r)
  from value_start_ArrayItems [OF 2] show ?case by simp
next
  case (3 ext s r)
  from value_start_ObjectItems [OF 3] show ?case by simp
next
  case (4 ext acc s)
  show ?case by simp
next
  case (5 ext acc s p v r r')
  from after_item_Next [OF 5(4)] 5(3) show ?case by simp
next
  case (6 ext acc s p key s')
  then have "member_key s = Some (key, s')" by simp
  from member_key_shorter [OF this] show ?case by simp
next
  case (7 ext acc s p key s' p' v r r')
  then have "member_key s = Some (key, s')" by simp
  from member_key_shorter [OF this] after_item_Next [OF 7(6)] 7(5)
  show ?case by simp
qed

definition json_decode :: "bool \<Rightarrow> pystr \<Rightarrow> pyval option" where
  "json_decode ext s =
     (case scan_once ext (skip_ws s) of
        None \<Rightarrow> None
      | Some (v, r) \<Rightarrow> if skip_ws r = [] then Some v else None)"

definition json_loads :: "pystr \<Rightarrow> exn + pyval" where
  "json_loads s =
     (case json_decode True s of
        None \<Rightarrow> Inl JSONDecodeError
      | Some v \<Rightarrow> Inr v)"

definition valid_json :: "pystr \<Rightarrow> bool" where
  "valid_json s = (json_decode False s \<noteq> None)"

section \<open>The script\<close>

text \<open>
  \<^verbatim>\<open>json.loads\<close> belongs to Python's standard library, so \<open>main\<close> takes it as the
  parameter \<open>loads\<close>: a function that returns a value or raises a subclass of
  \<^verbatim>\<open>Exception\<close> (a \<^verbatim>\<open>RecursionError\<close> on deep nesting, say, is an \<open>OtherException\<close>).
  \<open>json_loads\<close> above is the decoder itself. \<^verbatim>\<open>json.dumps\<close> and \<^verbatim>\<open>print\<close> are taken to
  succeed on every value \<open>loads\<close> returns.
\<close>

type_synonym loads = "pystr \<Rightarrow> exn + pyval"

type_synonym ('a, 'z) py = "(signal + 'a) \<times> 'z io_scheme"

definition error_payload :: "pystr \<Rightarrow> pyval" where
  "error_payload msg = PyDict [(lit ''error'', PyStr msg)]"

definition result_payload :: "pyval \<Rightarrow> pyval" where
  "result_payload query =
     PyDict [(lit ''query'', query),
             (lit ''results'', PyList []),
             (lit ''message'', PyStr (lit ''Web search functionality not yet implemented''))]"

text \<open>The body of the \<^verbatim>\<open>try\<close> statement, lines 17 to 32.\<close>

definition try_body :: "loads \<Rightarrow> pystr list \<Rightarrow> 'z io_scheme \<Rightarrow> (unit, 'z) py" where
  "try_body loads argv s =
     (case loads (argv ! 1) of
        Inl e \<Rightarrow> (Inl (Raise e), s)
      | Inr args \<Rightarrow>
          (case py_get args ''query'' (PyStr []) of
             Inl e \<Rightarrow> (Inl (Raise e), s)
           | Inr query \<Rightarrow>
               if \<not> truthy query
               then (Inl (SystemExit 1),
                     print_stderr (error_payload (lit ''Empty search query'')) s)
               else (Inr (), print_stdout (result_payload query) s)))"

text \<open>
  The two \<^verbatim>\<open>except\<close> clauses, in the source's order. \<^verbatim>\<open>SystemExit\<close> matches neither
  and passes through.
\<close>

fun except_clauses :: "(unit, 'z) py \<Rightarrow> (unit, 'z) py" where
  "except_clauses (Inl (Raise JSONDecodeError), s) =
     (Inl (SystemExit 1), print_stderr (error_payload (lit ''Invalid JSON arguments'')) s)"
| "except_clauses (Inl (Raise (AttributeError msg)), s) =
     (Inl (SystemExit 1), print_stderr (error_payload msg) s)"
| "except_clauses (Inl (Raise (OtherException msg)), s) =
     (Inl (SystemExit 1), print_stderr (error_payload msg) s)"
| "except_clauses r = r"

definition main :: "loads \<Rightarrow> pystr list \<Rightarrow> 'z io_scheme \<Rightarrow> (unit, 'z) py" where
  "main loads argv s =
     (if length argv < 2
      then (Inl (SystemExit 1),
            print_stderr (error_payload (lit ''No search query provided'')) s)
      else except_clauses (try_body loads argv s))"

text \<open>
  The process: it starts with empty streams and calls \<open>main\<close>. Returning from \<open>main\<close>
  ends it with exit code 0, \<^verbatim>\<open>SystemExit(n)\<close> with exit code \<open>n\<close>; any other exception
  that leaves \<open>main\<close> is an uncaught crash. \<open>main\<close> reads \<^verbatim>\<open>sys.argv\<close> and nothing else of
  the state, so \<open>run\<close> starts it in a state that holds the streams only.
\<close>

datatype status = Exited int | Uncaught exn

definition run :: "loads \<Rightarrow> pystr list \<Rightarrow> status \<times> io" where
  "run loads argv =
     (case main loads argv \<lparr>stdout = [], stderr = []\<rparr> of
        (Inr u, s) \<Rightarrow> (Exited 0, s)
      | (Inl (SystemExit n), s) \<Rightarrow> (Exited n, s)
      | (Inl (Raise e), s) \<Rightarrow> (Uncaught e, s))"

text \<open>
  The two kinds of outcome of the process: a failure leaves one object with the single
  key \<^verbatim>\<open>error\<close> on standard error, a success leaves the result object on standard output.
\<close>

definition failure :: "pystr \<Rightarrow> status \<times> io" where
  "failure msg = (Exited 1, \<lparr>stdout = [], stderr = [PyDict [(lit ''error'', PyStr msg)]]\<rparr>)"

definition success :: "pyval \<Rightarrow> status \<times> io" where
  "success v =
     (Exited 0,
      \<lparr>stdout = [PyDict [(lit ''query'', v),
                          (lit ''results'', PyList []),
                          (lit ''message'',
                           PyStr (lit ''Web search functionality not yet implemented''))]],
       stderr = []\<rparr>)"


section \<open>Evaluation\<close>

text \<open>The defining equations that evaluate the decoder and the script on a given input.\<close>

lemmas json_eval =
  lit_def ch_def json_loads_def json_decode_def valid_json_def skip_ws_def is_ws_def is_digit_def
  value_start_def after_item_def member_key_def match_constant_def match_number_def
  match_sign_def match_integer_def match_frac_def match_exp_def match_exp_sign_def
  digits_val_def scan_escape_def scan_unicode_def scan_u4_def hex4_def hex_digit_def
  unescape_def is_high_surrogate_def is_low_surrogate_def join_surrogates_def

lemmas script_defs =
  run_def main_def try_body_def print_stdout_def print_stderr_def
  error_payload_def result_payload_def

section \<open>Properties of the decoder\<close>

text \<open>What a constant or another complete value leaves is shorter than what it was read from.\<close>

lemma match_constant_shorter:
  assumes "match_constant ext s = Some (v, r)"
  shows "length r < length s"
proof -
  have a: "length (drop n s) < length s" if "take n s \<noteq> []" for n
    using that by (cases s; cases n) auto
  from assms consider
      "take 4 s = lit ''null''" "r = drop 4 s"
    | "take 4 s = lit ''true''" "r = drop 4 s"
    | "take 5 s = lit ''false''" "r = drop 5 s"
    | "take 3 s = lit ''NaN''" "r = drop 3 s"
    | "take 8 s = lit ''Infinity''" "r = drop 8 s"
    | "take 9 s = lit ''-Infinity''" "r = drop 9 s"
    unfolding match_constant_def by (auto split: if_splits)
  then show ?thesis
  proof cases
    case 1
    then have "take 4 s \<noteq> []" by (simp add: lit_def)
    from a [OF this] 1(2) show ?thesis by simp
  next
    case 2
    then have "take 4 s \<noteq> []" by (simp add: lit_def)
    from a [OF this] 2(2) show ?thesis by simp
  next
    case 3
    then have "take 5 s \<noteq> []" by (simp add: lit_def)
    from a [OF this] 3(2) show ?thesis by simp
  next
    case 4
    then have "take 3 s \<noteq> []" by (simp add: lit_def)
    from a [OF this] 4(2) show ?thesis by simp
  next
    case 5
    then have "take 8 s \<noteq> []" by (simp add: lit_def)
    from a [OF this] 5(2) show ?thesis by simp
  next
    case 6
    then have "take 9 s \<noteq> []" by (simp add: lit_def)
    from a [OF this] 6(2) show ?thesis by simp
  qed
qed

lemma value_start_Atom:
  assumes "value_start ext s = Atom (Some (v, r))"
  shows "length r < length s"
proof (cases s)
  case Nil
  with assms show ?thesis by (simp add: value_start_def)
next
  case (Cons c cs)
  consider (str) "c = ch CHR 0x22"
    | (obj) "c \<noteq> ch CHR 0x22" "c = ch CHR ''{''"
    | (arr) "c \<noteq> ch CHR 0x22" "c \<noteq> ch CHR ''{''" "c = ch CHR ''[''"
    | (other) "c \<noteq> ch CHR 0x22" "c \<noteq> ch CHR ''{''" "c \<noteq> ch CHR ''[''"
    by blast
  then show ?thesis
  proof cases
    case str
    with assms Cons obtain t where "scanstring [] cs = Some (t, r)"
      by (auto simp: value_start_def split: option.splits)
    from scanstring_shorter [OF this] Cons show ?thesis by simp
  next
    case obj
    with assms Cons obtain x where "skip_ws cs = x # r"
      by (auto simp: value_start_def split: list.splits if_splits)
    with length_skip_ws [of cs] Cons show ?thesis by simp
  next
    case arr
    with assms Cons obtain x where "skip_ws cs = x # r"
      by (auto simp: value_start_def split: list.splits if_splits)
    with length_skip_ws [of cs] Cons show ?thesis by simp
  next
    case other
    with assms Cons have "match_constant ext s = Some (v, r)
        \<or> match_number s = Some (v, r)"
      by (auto simp: value_start_def split: option.splits)
    then show ?thesis
      using match_constant_shorter match_number_shorter by blast
  qed
qed

lemma after_item_Closed: "after_item close s = Closed r \<Longrightarrow> length r < length s"
proof -
  assume "after_item close s = Closed r"
  then obtain x where "skip_ws s = x # r"
    by (auto simp: after_item_def split: list.splits if_splits)
  with length_skip_ws [of s] show ?thesis by simp
qed


text \<open>
  Every value takes at least one character, so the comparison of lengths in
  \<open>parse_array\<close> and \<open>parse_object\<close>, which is there for the termination proof, never
  fails.
\<close>

lemma scan_once_shorter:
  "scan_once ext s = Some (v, r) \<Longrightarrow> length r < length s"
  "parse_array ext acc s = Some (v, r) \<Longrightarrow> length r < length s"
  "parse_object ext dacc s = Some (v, r) \<Longrightarrow> length r < length s"
proof (induction ext s and ext acc s and ext dacc s
       arbitrary: v r and v r and v r rule: scan_once_parse_array_parse_object.induct)
  case (1 ext s)
  show ?case
  proof (cases "value_start ext s")
    case (Atom a)
    with 1(3) have "value_start ext s = Atom (Some (v, r))" by simp
    then show ?thesis by (rule value_start_Atom)
  next
    case (ArrayItems t)
    with 1(3) have "parse_array ext [] t = Some (v, r)" by simp
    from 1(1) [OF ArrayItems this] value_start_ArrayItems [OF ArrayItems]
    show ?thesis by simp
  next
    case (ObjectItems t)
    with 1(3) have "parse_object ext [] t = Some (v, r)" by simp
    from 1(2) [OF ObjectItems this] value_start_ObjectItems [OF ObjectItems]
    show ?thesis by simp
  qed
next
  case (2 ext acc s)
  from 2(3) obtain x t where a: "scan_once ext s = Some (x, t)"
    by (cases "scan_once ext s") auto
  from 2(1) [OF a] have b: "length t < length s" .
  show ?case
  proof (cases "after_item CHR '']'' t")
    case (Closed u)
    with 2(3) a b have "r = u" by simp
    with after_item_Closed [OF Closed] b show ?thesis by simp
  next
    case (Next u)
    with 2(3) a b have "parse_array ext (acc @ [x]) u = Some (v, r)" by simp
    from 2(2) [OF a refl b Next this] after_item_Next [OF Next] b
    show ?thesis by simp
  next
    case Bad
    with 2(3) a b show ?thesis by simp
  qed
next
  case (3 ext dacc s)
  from 3(3) obtain key t where k: "member_key s = Some (key, t)"
    by (cases "member_key s") auto
  from 3(3) k obtain x u where a: "scan_once ext t = Some (x, u)"
    by (cases "scan_once ext t") auto
  from 3(1) [OF k refl a] have b: "length u < length t" .
  note c = member_key_shorter [OF k]
  show ?case
  proof (cases "after_item CHR ''}'' u")
    case (Closed w)
    with 3(3) k a b have "r = w" by simp
    with after_item_Closed [OF Closed] b c show ?thesis by simp
  next
    case (Next w)
    with 3(3) k a b have "parse_object ext (dict_set dacc key x) w = Some (v, r)" by simp
    from 3(2) [OF k refl a refl b Next this] after_item_Next [OF Next] b c
    show ?thesis by simp
  next
    case Bad
    with 3(3) k a b show ?thesis by simp
  qed
qed

lemma parse_array_unguarded:
  "parse_array ext acc s =
     (case scan_once ext s of
        None \<Rightarrow> None
      | Some (v, r) \<Rightarrow>
          (case after_item CHR '']'' r of
             Bad \<Rightarrow> None
           | Closed r' \<Rightarrow> Some (PyList (acc @ [v]), r')
           | Next r' \<Rightarrow> parse_array ext (acc @ [v]) r'))"
  by (cases "scan_once ext s") (auto simp: scan_once_shorter(1))

lemma parse_object_unguarded:
  "parse_object ext acc s =
     (case member_key s of
        None \<Rightarrow> None
      | Some (key, s') \<Rightarrow>
          (case scan_once ext s' of
             None \<Rightarrow> None
           | Some (v, r) \<Rightarrow>
               (case after_item CHR ''}'' r of
                  Bad \<Rightarrow> None
                | Closed r' \<Rightarrow> Some (PyDict (dict_set acc key v), r')
                | Next r' \<Rightarrow> parse_object ext (dict_set acc key v) r')))"
  by (auto simp: scan_once_shorter(1) split: option.splits)


text \<open>
  The extension only adds texts: what the JSON grammar accepts, \<open>json_loads\<close> accepts
  with the same value.
\<close>

lemma match_number_not_constant:
  assumes "take 3 s = lit ''NaN'' \<or> take 8 s = lit ''Infinity'' \<or> take 9 s = lit ''-Infinity''"
  shows "match_number s = None"
proof -
  from assms consider c t where "s = c # t" "c = ch CHR ''N'' \<or> c = ch CHR ''I''"
    | t where "s = ch CHR ''-'' # ch CHR ''I'' # t"
    by (cases s; cases "tl s") (auto simp: lit_def ch_def)
  then show ?thesis
  proof cases
    case 1
    then show ?thesis
      by (auto simp: match_number_def match_sign_def match_integer_def is_digit_def ch_def)
  next
    case 2
    then show ?thesis
      by (simp add: match_number_def match_sign_def match_integer_def is_digit_def ch_def)
  qed
qed

lemma value_start_ext:
  "value_start False s = Atom (Some p) \<Longrightarrow> value_start True s = Atom (Some p)"
  "value_start False s = ArrayItems t \<Longrightarrow> value_start True s = ArrayItems t"
  "value_start False s = ObjectItems t \<Longrightarrow> value_start True s = ObjectItems t"
proof -
  have a: "(case match_constant True s of Some y \<Rightarrow> Some y | None \<Rightarrow> match_number s) = Some p"
    if "(case match_constant False s of Some y \<Rightarrow> Some y | None \<Rightarrow> match_number s) = Some p"
  proof (cases "match_constant False s")
    case (Some y)
    then have "match_constant True s = Some y"
      by (auto simp: match_constant_def split: if_splits)
    with that Some show ?thesis by simp
  next
    case None
    with that have n: "match_number s = Some p" by simp
    have "match_constant True s = None"
    proof (rule ccontr)
      assume "match_constant True s \<noteq> None"
      with None have "take 3 s = lit ''NaN'' \<or> take 8 s = lit ''Infinity''
          \<or> take 9 s = lit ''-Infinity''"
        by (auto simp: match_constant_def split: if_splits)
      from match_number_not_constant [OF this] n show False by simp
    qed
    with n show ?thesis by simp
  qed
  show "value_start False s = Atom (Some p) \<Longrightarrow> value_start True s = Atom (Some p)"
    using a by (auto simp: value_start_def split: list.splits if_splits)
  show "value_start False s = ArrayItems t \<Longrightarrow> value_start True s = ArrayItems t"
    by (auto simp: value_start_def split: list.splits if_splits)
  show "value_start False s = ObjectItems t \<Longrightarrow> value_start True s = ObjectItems t"
    by (auto simp: value_start_def split: list.splits if_splits)
qed


lemma scan_once_ext:
  "ext = False \<Longrightarrow> scan_once ext s = Some p \<Longrightarrow> scan_once True s = Some p"
  "ext = False \<Longrightarrow> parse_array ext acc s = Some p \<Longrightarrow> parse_array True acc s = Some p"
  "ext = False \<Longrightarrow> parse_object ext dacc s = Some p \<Longrightarrow> parse_object True dacc s = Some p"
proof (induction ext s and ext acc s and ext dacc s
       arbitrary: p and p and p rule: scan_once_parse_array_parse_object.induct)
  case (1 ext s)
  show ?case
  proof (cases "value_start False s")
    case (Atom a)
    with 1(3,4) have "value_start False s = Atom (Some p)" by simp
    from value_start_ext(1) [OF this] show ?thesis by simp
  next
    case (ArrayItems t)
    with 1(3,4) have "parse_array ext [] t = Some p" by simp
    from 1(1) [OF _ 1(3) this] ArrayItems 1(3) value_start_ext(2) [OF ArrayItems]
    show ?thesis by simp
  next
    case (ObjectItems t)
    with 1(3,4) have "parse_object ext [] t = Some p" by simp
    from 1(2) [OF _ 1(3) this] ObjectItems 1(3) value_start_ext(3) [OF ObjectItems]
    show ?thesis by simp
  qed
next
  case (2 ext acc s)
  from 2(4) obtain x t where a: "scan_once ext s = Some (x, t)"
    by (cases "scan_once ext s") auto
  from 2(1) [OF 2(3) a] have a': "scan_once True s = Some (x, t)" .
  from scan_once_shorter(1) [OF a] have b: "length t < length s" .
  show ?case
  proof (cases "after_item CHR '']'' t")
    case (Closed u)
    with 2(4) a a' b show ?thesis by simp
  next
    case (Next u)
    with 2(4) a b have "parse_array ext (acc @ [x]) u = Some p" by simp
    from 2(2) [OF a refl b Next 2(3) this] a' b Next show ?thesis by simp
  next
    case Bad
    with 2(4) a b show ?thesis by simp
  qed
next
  case (3 ext dacc s)
  from 3(4) obtain key t where k: "member_key s = Some (key, t)"
    by (cases "member_key s") auto
  from 3(4) k obtain x u where a: "scan_once ext t = Some (x, u)"
    by (cases "scan_once ext t") auto
  from 3(1) [OF k refl 3(3) a] have a': "scan_once True t = Some (x, u)" .
  from scan_once_shorter(1) [OF a] have b: "length u < length t" .
  show ?case
  proof (cases "after_item CHR ''}'' u")
    case (Closed w)
    with 3(4) k a a' b show ?thesis by simp
  next
    case (Next w)
    with 3(4) k a b have "parse_object ext (dict_set dacc key x) w = Some p" by simp
    from 3(2) [OF k refl a refl b Next 3(3) this] k a' b Next show ?thesis by simp
  next
    case Bad
    with 3(4) k a b show ?thesis by simp
  qed
qed

lemma valid_json_accepted:
  assumes "valid_json s"
  shows "\<exists>v. json_decode False s = Some v \<and> json_loads s = Inr v"
proof -
  from assms obtain v where a: "json_decode False s = Some v"
    by (auto simp: valid_json_def)
  then obtain r where b: "scan_once False (skip_ws s) = Some (v, r)" and c: "skip_ws r = []"
    by (auto simp: json_decode_def split: option.splits if_splits)
  from scan_once_ext(1) [OF refl b] c have "json_decode True s = Some v"
    by (simp add: json_decode_def)
  with a show ?thesis by (simp add: json_loads_def)
qed

section \<open>Properties of the script\<close>

text \<open>
  C1. When the first positional argument decodes to a JSON object whose key \<^verbatim>\<open>query\<close> holds
  a non-empty string \<open>q\<close>, the script prints the object with \<^verbatim>\<open>query\<close> set to \<open>q\<close>,
  \<^verbatim>\<open>results\<close> set to the empty list and the fixed \<^verbatim>\<open>message\<close> to standard output, prints
  nothing to standard error and ends with exit code 0.
\<close>

theorem query_string_success:
  assumes "2 \<le> length argv"
    and "loads (argv ! 1) = Inr (PyDict d)"
    and "map_of d (lit ''query'') = Some (PyStr q)"
    and "q \<noteq> []"
  shows "run loads argv =
    (Exited 0,
     \<lparr>stdout = [PyDict [(lit ''query'', PyStr q),
                         (lit ''results'', PyList []),
                         (lit ''message'',
                          PyStr (lit ''Web search functionality not yet implemented''))]],
      stderr = []\<rparr>)"
  using assms by (simp add: script_defs)

theorem query_string_success_witness:
  \<open>json_loads ([lit ''search_web_py.py'', lit ''{"query": "cats"}''] ! 1)
     = Inr (PyDict [(lit ''query'', PyStr (lit ''cats''))])
   \<and> run json_loads [lit ''search_web_py.py'', lit ''{"query": "cats"}''] =
    (Exited 0,
     \<lparr>stdout = [PyDict [(lit ''query'', PyStr (lit ''cats'')),
                         (lit ''results'', PyList []),
                         (lit ''message'',
                          PyStr (lit ''Web search functionality not yet implemented''))]],
      stderr = []\<rparr>)\<close>
proof -
  have p: \<open>json_loads ([lit ''search_web_py.py'', lit ''{"query": "cats"}''] ! 1)
     = Inr (PyDict [(lit ''query'', PyStr (lit ''cats''))])\<close>
    by (simp add: json_eval)
  have l: \<open>2 \<le> length [lit ''search_web_py.py'', lit ''{"query": "cats"}'']\<close>
    by simp
  have m: "map_of [(lit ''query'', PyStr (lit ''cats''))] (lit ''query'') = Some (PyStr (lit ''cats''))"
    by simp
  have n: "lit ''cats'' \<noteq> []" by (simp add: lit_def)
  from query_string_success [where loads = json_loads, OF l p m n] p show ?thesis by simp
qed

text \<open>
  C2. When the first positional argument decodes to a JSON object in which the key
  \<^verbatim>\<open>query\<close> is absent or holds the empty string, the script prints the object
  \<^verbatim>\<open>{"error": "Empty search query"}\<close> to standard error, prints nothing to standard output
  and ends with exit code 1.
\<close>

theorem empty_query_error:
  assumes "2 \<le> length argv"
    and "loads (argv ! 1) = Inr (PyDict d)"
    and "map_of d (lit ''query'') = None \<or> map_of d (lit ''query'') = Some (PyStr [])"
  shows "run loads argv =
    (Exited 1,
     \<lparr>stdout = [],
      stderr = [PyDict [(lit ''error'', PyStr (lit ''Empty search query''))]]\<rparr>)"
  using assms by (auto simp: script_defs)

theorem empty_query_error_witness:
  \<open>json_loads ([lit ''search_web_py.py'', lit ''{}''] ! 1) = Inr (PyDict [])
   \<and> run json_loads [lit ''search_web_py.py'', lit ''{}''] =
       (Exited 1,
        \<lparr>stdout = [],
         stderr = [PyDict [(lit ''error'', PyStr (lit ''Empty search query''))]]\<rparr>)
   \<and> json_loads ([lit ''search_web_py.py'', lit ''{"query": ""}''] ! 1)
       = Inr (PyDict [(lit ''query'', PyStr [])])
   \<and> run json_loads [lit ''search_web_py.py'', lit ''{"query": ""}''] =
       (Exited 1,
        \<lparr>stdout = [],
         stderr = [PyDict [(lit ''error'', PyStr (lit ''Empty search query''))]]\<rparr>)\<close>
proof -
  have p1: \<open>json_loads ([lit ''search_web_py.py'', lit ''{}''] ! 1) = Inr (PyDict [])\<close>
    by (simp add: json_eval)
  have p2: \<open>json_loads ([lit ''search_web_py.py'', lit ''{"query": ""}''] ! 1)
       = Inr (PyDict [(lit ''query'', PyStr [])])\<close>
    by (simp add: json_eval)
  have l1: \<open>2 \<le> length [lit ''search_web_py.py'', lit ''{}'']\<close>
    by simp
  have l2: \<open>2 \<le> length [lit ''search_web_py.py'', lit ''{"query": ""}'']\<close>
    by simp
  have m1: "map_of [] (lit ''query'') = None
      \<or> map_of [] (lit ''query'') = Some (PyStr [])"
    by simp
  have m2: "map_of [(lit ''query'', PyStr [])] (lit ''query'') = None
      \<or> map_of [(lit ''query'', PyStr [])] (lit ''query'') = Some (PyStr [])"
    by simp
  from empty_query_error [where loads = json_loads, OF l1 p1 m1]
       empty_query_error [where loads = json_loads, OF l2 p2 m2] p1 p2
  show ?thesis by simp
qed

text \<open>
  C4. With no positional argument after the program name the script prints
  \<^verbatim>\<open>{"error": "No search query provided"}\<close> to standard error and ends with exit code 1.
  Nothing is decoded: the outcome is the same whatever the decoder would do.
\<close>

theorem no_argument_error:
  assumes "length argv < 2"
  shows "run loads argv =
    (Exited 1,
     \<lparr>stdout = [],
      stderr = [PyDict [(lit ''error'', PyStr (lit ''No search query provided''))]]\<rparr>)"
  using assms by (simp add: script_defs)

theorem no_argument_error_witness:
  "length [lit ''search_web_py.py''] < 2
   \<and> run json_loads [lit ''search_web_py.py''] =
       (Exited 1,
        \<lparr>stdout = [],
         stderr = [PyDict [(lit ''error'', PyStr (lit ''No search query provided''))]]\<rparr>)"
proof -
  have l: "length [lit ''search_web_py.py''] < 2" by simp
  from no_argument_error [where loads = json_loads, OF l] l show ?thesis by simp
qed

text \<open>
  C10. The outcome depends on the first positional argument only: two invocations that
  agree on it give the same streams and the same exit code, whatever the program name
  and the further arguments are.
\<close>

theorem first_argument_only:
  assumes "2 \<le> length argv" and "2 \<le> length argv'" and "argv ! 1 = argv' ! 1"
  shows "run loads argv = run loads argv'"
  using assms by (simp add: run_def main_def try_body_def)

theorem first_argument_only_witness:
  \<open>run json_loads [lit ''search_web_py.py'', lit ''{"query": "cats"}'']
   = run json_loads [lit ''tools/search_web_py.py'', lit ''{"query": "cats"}'', lit ''--verbose'', lit ''{}'']\<close>
proof -
  have l1: \<open>2 \<le> length [lit ''search_web_py.py'', lit ''{"query": "cats"}'']\<close>
    by simp
  have l2: \<open>2 \<le> length [lit ''tools/search_web_py.py'', lit ''{"query": "cats"}'', lit ''--verbose'', lit ''{}'']\<close>
    by simp
  have e: \<open>[lit ''search_web_py.py'', lit ''{"query": "cats"}''] ! 1
      = [lit ''tools/search_web_py.py'', lit ''{"query": "cats"}'', lit ''--verbose'', lit ''{}''] ! 1\<close>
    by simp
  from first_argument_only [where loads = json_loads, OF l1 l2 e] show ?thesis .
qed

text \<open>
  C3, as stated, fails: a decoded value that is not an object has no \<^verbatim>\<open>get\<close>, so the lookup
  raises \<^verbatim>\<open>AttributeError\<close> and the script reports that failure, not an empty query.
\<close>

theorem query_absent_counterexample:
  \<open>valid_json (lit ''5'')
   \<and> json_loads (lit ''5'') = Inr (PyInt 5)
   \<and> run json_loads [lit ''search_web_py.py'', lit ''5''] =
       (Exited 1,
        \<lparr>stdout = [],
         stderr = [PyDict [(lit ''error'',
                    PyStr (apostrophe # lit ''int' object has no attribute 'get'' @ [apostrophe]))]]\<rparr>)
   \<and> run json_loads [lit ''search_web_py.py'', lit ''5''] \<noteq>
       (Exited 1,
        \<lparr>stdout = [],
         stderr = [PyDict [(lit ''error'', PyStr (lit ''Empty search query''))]]\<rparr>)\<close>
  by (simp add: json_eval script_defs no_attribute_def apostrophe_def)

text \<open>
  C3, amended. When the first positional argument decodes to a value without the field
  \<^verbatim>\<open>query\<close>: if the value is an object, the script prints \<^verbatim>\<open>{"error": "Empty search query"}\<close>
  to standard error and ends with exit code 1; if it is not an object (a number, a string,
  an array, a boolean or null), the script prints
  \<^verbatim>\<open>{"error": "'T' object has no attribute 'get'"}\<close> to standard error, \<^verbatim>\<open>T\<close> being the name
  of the value's Python type, and ends with exit code 1.
\<close>

theorem query_absent_error:
  assumes "2 \<le> length argv" and "loads (argv ! 1) = Inr v"
  shows "(\<forall>d. v = PyDict d \<and> map_of d (lit ''query'') = None \<longrightarrow>
            run loads argv =
              (Exited 1,
               \<lparr>stdout = [],
                stderr = [PyDict [(lit ''error'', PyStr (lit ''Empty search query''))]]\<rparr>))
       \<and> ((\<forall>d. v \<noteq> PyDict d) \<longrightarrow>
            run loads argv =
              (Exited 1,
               \<lparr>stdout = [],
                stderr = [PyDict [(lit ''error'',
                           PyStr (apostrophe # lit (type_name v) @ apostrophe
                                    # lit '' object has no attribute 'get'' @ [apostrophe]))]]\<rparr>))"
  using assms
  by (cases v) (simp_all add: script_defs no_attribute_def lit_def apostrophe_def)

theorem query_absent_error_witness:
  \<open>run json_loads [lit ''search_web_py.py'', lit ''{"q": 1}''] =
       (Exited 1,
        \<lparr>stdout = [],
         stderr = [PyDict [(lit ''error'', PyStr (lit ''Empty search query''))]]\<rparr>)
   \<and> run json_loads [lit ''search_web_py.py'', lit ''[1]''] =
       (Exited 1,
        \<lparr>stdout = [],
         stderr = [PyDict [(lit ''error'',
                    PyStr (apostrophe # lit ''list' object has no attribute 'get'' @ [apostrophe]))]]\<rparr>)\<close>
proof -
  have p1: \<open>json_loads ([lit ''search_web_py.py'', lit ''{"q": 1}''] ! 1)
      = Inr (PyDict [(lit ''q'', PyInt 1)])\<close>
    by (simp add: json_eval)
  have p2: \<open>json_loads ([lit ''search_web_py.py'', lit ''[1]''] ! 1) = Inr (PyList [PyInt 1])\<close>
    by (simp add: json_eval)
  have l1: \<open>2 \<le> length [lit ''search_web_py.py'', lit ''{"q": 1}'']\<close>
    by simp
  have l2: \<open>2 \<le> length [lit ''search_web_py.py'', lit ''[1]'']\<close>
    by simp
  have m: "map_of [(lit ''q'', PyInt 1)] (lit ''query'') = None"
    by (simp add: lit_def)
  from query_absent_error [where loads = json_loads, OF l1 p1] m
  have a: \<open>run json_loads [lit ''search_web_py.py'', lit ''{"q": 1}''] =
       (Exited 1,
        \<lparr>stdout = [],
         stderr = [PyDict [(lit ''error'', PyStr (lit ''Empty search query''))]]\<rparr>)\<close>
    by blast
  from query_absent_error [where loads = json_loads, OF l2 p2]
  have b: \<open>run json_loads [lit ''search_web_py.py'', lit ''[1]''] =
       (Exited 1,
        \<lparr>stdout = [],
         stderr = [PyDict [(lit ''error'',
                    PyStr (apostrophe # lit (type_name (PyList [PyInt 1])) @ apostrophe
                             # lit '' object has no attribute 'get'' @ [apostrophe]))]]\<rparr>)\<close>
    by simp
  from a b show ?thesis by (simp add: lit_def apostrophe_def)
qed

text \<open>
  C5, as stated, fails: the decoder accepts the constants \<^verbatim>\<open>NaN\<close>, \<^verbatim>\<open>Infinity\<close> and
  \<^verbatim>\<open>-Infinity\<close>, which are not JSON. An argument that uses one is not valid JSON, yet it is
  decoded; \<^verbatim>\<open>NaN\<close> is true as a Python value, so the script succeeds.
\<close>

theorem decode_error_counterexample:
  \<open>\<not> valid_json (lit ''{"query": NaN}'')
   \<and> run json_loads [lit ''search_web_py.py'', lit ''{"query": NaN}''] =
       (Exited 0,
        \<lparr>stdout = [PyDict [(lit ''query'', PyFloat NaN),
                            (lit ''results'', PyList []),
                            (lit ''message'',
                             PyStr (lit ''Web search functionality not yet implemented''))]],
         stderr = []\<rparr>)\<close>
  by (simp add: json_eval script_defs)

text \<open>
  C5, amended. When the first positional argument is present and the decoder rejects it
  (\<^verbatim>\<open>json.loads\<close> raises \<^verbatim>\<open>JSONDecodeError\<close>), the script prints
  \<^verbatim>\<open>{"error": "Invalid JSON arguments"}\<close> to standard error, prints nothing to standard output
  and ends with exit code 1.
\<close>

theorem decode_error:
  assumes "2 \<le> length argv" and "loads (argv ! 1) = Inl JSONDecodeError"
  shows "run loads argv =
    (Exited 1,
     \<lparr>stdout = [],
      stderr = [PyDict [(lit ''error'', PyStr (lit ''Invalid JSON arguments''))]]\<rparr>)"
  using assms by (simp add: script_defs)

theorem decode_error_witness:
  \<open>json_loads ([lit ''search_web_py.py'', lit ''not-json''] ! 1) = Inl JSONDecodeError
   \<and> run json_loads [lit ''search_web_py.py'', lit ''not-json''] =
       (Exited 1,
        \<lparr>stdout = [],
         stderr = [PyDict [(lit ''error'', PyStr (lit ''Invalid JSON arguments''))]]\<rparr>)\<close>
proof -
  have p: \<open>json_loads ([lit ''search_web_py.py'', lit ''not-json''] ! 1) = Inl JSONDecodeError\<close>
    by (simp add: json_eval)
  have l: \<open>2 \<le> length [lit ''search_web_py.py'', lit ''not-json'']\<close>
    by simp
  from decode_error [where loads = json_loads, OF l p] p show ?thesis by simp
qed

text \<open>
  C9. When the first positional argument decodes to a JSON object with a value \<open>v\<close> under
  \<^verbatim>\<open>query\<close>, the test \<^verbatim>\<open>not query\<close> is Python's truth value of \<open>v\<close>, not emptiness of a string:
  a true \<open>v\<close> (a non-zero integer, a non-empty array, \<^verbatim>\<open>true\<close>) gives the success payload
  with \<open>v\<close> itself under \<^verbatim>\<open>query\<close> and exit code 0; a false \<open>v\<close> (\<^verbatim>\<open>0\<close>, \<^verbatim>\<open>false\<close>, \<^verbatim>\<open>null\<close>, the
  empty array) gives \<^verbatim>\<open>{"error": "Empty search query"}\<close> on standard error and exit code 1.
\<close>

theorem query_truth_value:
  assumes "2 \<le> length argv"
    and "loads (argv ! 1) = Inr (PyDict d)"
    and "map_of d (lit ''query'') = Some v"
  shows "(truthy v \<longrightarrow>
            run loads argv =
              (Exited 0,
               \<lparr>stdout = [PyDict [(lit ''query'', v),
                                   (lit ''results'', PyList []),
                                   (lit ''message'',
                                    PyStr (lit ''Web search functionality not yet implemented''))]],
                stderr = []\<rparr>))
       \<and> (\<not> truthy v \<longrightarrow>
            run loads argv =
              (Exited 1,
               \<lparr>stdout = [],
                stderr = [PyDict [(lit ''error'', PyStr (lit ''Empty search query''))]]\<rparr>))
       \<and> (truthy v \<longleftrightarrow>
            v \<noteq> PyNone \<and> v \<noteq> PyBool False \<and> v \<noteq> PyInt 0 \<and> v \<noteq> PyStr []
            \<and> v \<noteq> PyList [] \<and> v \<noteq> PyDict [] \<and> (\<forall>f. v = PyFloat f \<longrightarrow> float_nonzero f))"
  using assms by (cases v) (auto simp: script_defs)

theorem query_truth_value_witness:
  \<open>run json_loads [lit ''search_web_py.py'', lit ''{"query": 7}''] =
       (Exited 0,
        \<lparr>stdout = [PyDict [(lit ''query'', PyInt 7),
                            (lit ''results'', PyList []),
                            (lit ''message'',
                             PyStr (lit ''Web search functionality not yet implemented''))]],
         stderr = []\<rparr>)
   \<and> run json_loads [lit ''search_web_py.py'', lit ''{"query": [false]}''] =
       (Exited 0,
        \<lparr>stdout = [PyDict [(lit ''query'', PyList [PyBool False]),
                            (lit ''results'', PyList []),
                            (lit ''message'',
                             PyStr (lit ''Web search functionality not yet implemented''))]],
         stderr = []\<rparr>)
   \<and> run json_loads [lit ''search_web_py.py'', lit ''{"query": 0}''] =
       (Exited 1,
        \<lparr>stdout = [],
         stderr = [PyDict [(lit ''error'', PyStr (lit ''Empty search query''))]]\<rparr>)
   \<and> run json_loads [lit ''search_web_py.py'', lit ''{"query": null}''] =
       (Exited 1,
        \<lparr>stdout = [],
         stderr = [PyDict [(lit ''error'', PyStr (lit ''Empty search query''))]]\<rparr>)\<close>
proof -
  have p1: \<open>json_loads ([lit ''search_web_py.py'', lit ''{"query": 7}''] ! 1)
      = Inr (PyDict [(lit ''query'', PyInt 7)])\<close>
    by (simp add: json_eval)
  have p2: \<open>json_loads ([lit ''search_web_py.py'', lit ''{"query": [false]}''] ! 1)
      = Inr (PyDict [(lit ''query'', PyList [PyBool False])])\<close>
    by (simp add: json_eval)
  have p3: \<open>json_loads ([lit ''search_web_py.py'', lit ''{"query": 0}''] ! 1)
      = Inr (PyDict [(lit ''query'', PyInt 0)])\<close>
    by (simp add: json_eval)
  have p4: \<open>json_loads ([lit ''search_web_py.py'', lit ''{"query": null}''] ! 1)
      = Inr (PyDict [(lit ''query'', PyNone)])\<close>
    by (simp add: json_eval)
  have l: "2 \<le> length [a, b]" for a b :: pystr
    by simp
  have m: "map_of [(lit ''query'', v)] (lit ''query'') = Some v" for v
    by simp
  from query_truth_value [where loads = json_loads, OF l p1 m]
       query_truth_value [where loads = json_loads, OF l p2 m]
       query_truth_value [where loads = json_loads, OF l p3 m]
       query_truth_value [where loads = json_loads, OF l p4 m]
  show ?thesis by simp
qed

text \<open>
  Floats go through the same test: \<^verbatim>\<open>1e-400\<close> is read as the float zero, which is false,
  and \<^verbatim>\<open>0.5\<close> is true.
\<close>

lemma float_underflow_example:
  \<open>run json_loads [lit ''search_web_py.py'', lit ''{"query": 1e-400}''] =
     (Exited 1,
      \<lparr>stdout = [],
       stderr = [PyDict [(lit ''error'', PyStr (lit ''Empty search query''))]]\<rparr>)
   \<and> run json_loads [lit ''search_web_py.py'', lit ''{"query": 0.5}''] =
     (Exited 0,
      \<lparr>stdout = [PyDict [(lit ''query'', PyFloat (Dec False 5 (- 1))),
                          (lit ''results'', PyList []),
                          (lit ''message'',
                           PyStr (lit ''Web search functionality not yet implemented''))]],
       stderr = []\<rparr>)\<close>
  by (simp add: json_eval script_defs)

section \<open>Every run\<close>

text \<open>The outcomes of the script, by cases on what the decoder and the lookup do.\<close>

lemma py_get_cases:
  obtains q where "py_get v key dflt = Inr q"
  | "py_get v key dflt = Inl (AttributeError (no_attribute v ''get''))"
  by (cases v) auto

lemma run_outcome: "(\<exists>msg. run loads argv = failure msg) \<or> (\<exists>v. run loads argv = success v)"
proof (cases "length argv < 2")
  case True
  then show ?thesis by (simp add: script_defs failure_def)
next
  case long: False
  show ?thesis
  proof (cases "loads (argv ! 1)")
    case (Inl e)
    with long show ?thesis by (cases e) (simp_all add: script_defs failure_def)
  next
    case (Inr args)
    show ?thesis
    proof (cases args "''query''" "PyStr []" rule: py_get_cases)
      case (1 q)
      with long Inr show ?thesis
        by (cases "truthy q") (simp_all add: script_defs failure_def success_def)
    next
      case 2
      with long Inr show ?thesis by (simp add: script_defs failure_def)
    qed
  qed
qed



text \<open>
  C6. The script is total at its interface. Every run ends with exit code 0 or 1 and no
  exception leaves \<open>main\<close>. A failure other than the anticipated ones, that is an
  exception other than \<^verbatim>\<open>JSONDecodeError\<close> raised by the decoder or by the lookup of
  \<^verbatim>\<open>query\<close>, is caught: its text goes to standard error as \<^verbatim>\<open>{"error": text}\<close> and the exit
  code is 1.
\<close>

theorem total_at_interface:
  "(fst (run loads argv) = Exited 0 \<or> fst (run loads argv) = Exited 1)
   \<and> (\<forall>e. fst (run loads argv) \<noteq> Uncaught e)
   \<and> (\<forall>msg. 2 \<le> length argv
          \<and> (loads (argv ! 1) = Inl (AttributeError msg)
             \<or> loads (argv ! 1) = Inl (OtherException msg)
             \<or> (\<exists>args. loads (argv ! 1) = Inr args
                  \<and> py_get args ''query'' (PyStr []) = Inl (AttributeError msg)))
        \<longrightarrow> run loads argv =
              (Exited 1, \<lparr>stdout = [], stderr = [PyDict [(lit ''error'', PyStr msg)]]\<rparr>))"
proof -
  from run_outcome [of loads argv]
  have a: "fst (run loads argv) = Exited 0 \<or> fst (run loads argv) = Exited 1"
    by (auto simp: failure_def success_def)
  then have b: "\<forall>e. fst (run loads argv) \<noteq> Uncaught e"
    by auto
  have c: "run loads argv =
      (Exited 1, \<lparr>stdout = [], stderr = [PyDict [(lit ''error'', PyStr msg)]]\<rparr>)"
    if "2 \<le> length argv"
      and "loads (argv ! 1) = Inl (AttributeError msg)
         \<or> loads (argv ! 1) = Inl (OtherException msg)
         \<or> (\<exists>args. loads (argv ! 1) = Inr args
              \<and> py_get args ''query'' (PyStr []) = Inl (AttributeError msg))"
    for msg
    using that by (auto simp: script_defs)
  from a b c show ?thesis by blast
qed

theorem total_at_interface_witness:
  \<open>run json_loads [lit ''search_web_py.py'', lit ''"cats"''] =
       (Exited 1,
        \<lparr>stdout = [],
         stderr = [PyDict [(lit ''error'',
                    PyStr (apostrophe # lit ''str' object has no attribute 'get'' @ [apostrophe]))]]\<rparr>)
   \<and> run (\<lambda>s. Inl (OtherException (lit ''maximum recursion depth exceeded'')))
         [lit ''search_web_py.py'', lit ''[[[[]]]]''] =
       (Exited 1,
        \<lparr>stdout = [],
         stderr = [PyDict [(lit ''error'',
                    PyStr (lit ''maximum recursion depth exceeded''))]]\<rparr>)\<close>
proof -
  have p: \<open>json_loads ([lit ''search_web_py.py'', lit ''"cats"''] ! 1) = Inr (PyStr (lit ''cats''))\<close>
    by (simp add: json_eval)
  have g: "py_get (PyStr (lit ''cats'')) ''query'' (PyStr [])
      = Inl (AttributeError (apostrophe # lit ''str' object has no attribute 'get'' @ [apostrophe]))"
    by (simp add: no_attribute_def lit_def apostrophe_def)
  have l: "2 \<le> length [a, b]" for a b :: pystr
    by simp
  from total_at_interface [of json_loads \<open>[lit ''search_web_py.py'', lit ''"cats"'']\<close>] l p g
  have a: \<open>run json_loads [lit ''search_web_py.py'', lit ''"cats"''] =
       (Exited 1,
        \<lparr>stdout = [],
         stderr = [PyDict [(lit ''error'',
                    PyStr (apostrophe # lit ''str' object has no attribute 'get'' @ [apostrophe]))]]\<rparr>)\<close>
    by blast
  from total_at_interface
         [of "\<lambda>s. Inl (OtherException (lit ''maximum recursion depth exceeded''))"
             "[lit ''search_web_py.py'', lit ''[[[[]]]]'']"]
  have b: "run (\<lambda>s. Inl (OtherException (lit ''maximum recursion depth exceeded'')))
         [lit ''search_web_py.py'', lit ''[[[[]]]]''] =
       (Exited 1,
        \<lparr>stdout = [],
         stderr = [PyDict [(lit ''error'',
                    PyStr (lit ''maximum recursion depth exceeded''))]]\<rparr>)"
    by simp
  from a b show ?thesis by simp
qed

text \<open>
  C7. The streams are kept apart. No run ends in an uncaught exception; standard output
  receives something exactly when the exit code is 0, and then it is the success payload
  alone; standard error receives something exactly when the exit code is 1, and then it
  is a single JSON object whose only key is \<^verbatim>\<open>error\<close>, with a string under it.
\<close>

theorem stream_separation:
  "(\<forall>e. fst (run loads argv) \<noteq> Uncaught e)
   \<and> (stdout (snd (run loads argv)) \<noteq> [] \<longleftrightarrow> fst (run loads argv) = Exited 0)
   \<and> (stderr (snd (run loads argv)) \<noteq> [] \<longleftrightarrow> fst (run loads argv) = Exited 1)
   \<and> (fst (run loads argv) = Exited 0 \<longrightarrow>
         (\<exists>v. stdout (snd (run loads argv)) =
                [PyDict [(lit ''query'', v),
                         (lit ''results'', PyList []),
                         (lit ''message'',
                          PyStr (lit ''Web search functionality not yet implemented''))]]))
   \<and> (fst (run loads argv) = Exited 1 \<longrightarrow>
         (\<exists>msg. stderr (snd (run loads argv)) = [PyDict [(lit ''error'', PyStr msg)]]))"
  using run_outcome [of loads argv] by (auto simp: failure_def success_def)

theorem stream_separation_witness:
  \<open>fst (run json_loads [lit ''search_web_py.py'', lit ''{"query": false}'']) = Exited 1
   \<and> stdout (snd (run json_loads [lit ''search_web_py.py'', lit ''{"query": false}''])) = []
   \<and> (\<exists>msg. stderr (snd (run json_loads [lit ''search_web_py.py'', lit ''{"query": false}'']))
          = [PyDict [(lit ''error'', PyStr msg)]])
   \<and> fst (run json_loads [lit ''search_web_py.py'', lit ''{"query": "dogs"}'']) = Exited 0
   \<and> stderr (snd (run json_loads [lit ''search_web_py.py'', lit ''{"query": "dogs"}''])) = []
   \<and> (\<exists>v. stdout (snd (run json_loads [lit ''search_web_py.py'', lit ''{"query": "dogs"}''])) =
          [PyDict [(lit ''query'', v),
                   (lit ''results'', PyList []),
                   (lit ''message'',
                    PyStr (lit ''Web search functionality not yet implemented''))]])\<close>
proof -
  have e: \<open>fst (run json_loads [lit ''search_web_py.py'', lit ''{"query": false}'']) = Exited 1\<close>
    by (simp add: json_eval script_defs)
  have f: \<open>fst (run json_loads [lit ''search_web_py.py'', lit ''{"query": "dogs"}'']) = Exited 0\<close>
    by (simp add: json_eval script_defs)
  from stream_separation [of json_loads \<open>[lit ''search_web_py.py'', lit ''{"query": false}'']\<close>] e
  have a: \<open>stdout (snd (run json_loads [lit ''search_web_py.py'', lit ''{"query": false}''])) = []
     \<and> (\<exists>msg. stderr (snd (run json_loads [lit ''search_web_py.py'', lit ''{"query": false}'']))
          = [PyDict [(lit ''error'', PyStr msg)]])\<close>
    by auto
  from stream_separation [of json_loads \<open>[lit ''search_web_py.py'', lit ''{"query": "dogs"}'']\<close>] f
  have b: \<open>stderr (snd (run json_loads [lit ''search_web_py.py'', lit ''{"query": "dogs"}''])) = []
     \<and> (\<exists>v. stdout (snd (run json_loads [lit ''search_web_py.py'', lit ''{"query": "dogs"}''])) =
          [PyDict [(lit ''query'', v),
                   (lit ''results'', PyList []),
                   (lit ''message'',
                    PyStr (lit ''Web search functionality not yet implemented''))]])\<close>
    by auto
  from e f a b show ?thesis by blast
qed


end
